theory Spec2Isabelle
  imports Complex_Main
begin

section \<open>The marker directive of ngMap (src/directives/marker.js)\<close>

text \<open>
  The file defines two functions: \<open>getMarker\<close>, which normalises an options object and
  builds a \<open>google.maps.Marker\<close> from it, and \<open>linkFunc\<close>, the link function of the
  \<open>marker\<close> directive, which calls \<open>getMarker\<close>, optionally builds a \<open>MarkerLabel\<close>,
  optionally asks the map controller for a geocode lookup, and binds a \<open>$destroy\<close> handler.

  JavaScript values are a datatype, plain objects are association lists, a thrown
  \<open>TypeError\<close> is the left injection of a sum, and the calls made on the map controller
  and on \<open>$parse\<close> are collected in a list, in the order in which they happen.

  The attribute parser, the map controller and the Google Maps SDK are not in the file.
  What the parser returns is an argument of the model, what the controller is asked to
  do is recorded and not carried out, and of the SDK the model keeps what the file
  itself relies on: a marker holds the options it was built from, and a point, a size
  and a coordinate hold their arguments. The drawing of the label (\<open>onAdd\<close>,
  \<open>onRemove\<close>, \<open>draw\<close>) works on the page and is not modelled.
\<close>

subsection \<open>JavaScript values\<close>

text \<open>
  Numbers are the finite reals (both zeros are \<open>Finite 0\<close>), \<open>NaN\<close> and the two
  infinities. Functions are opaque and carry a tag only. \<open>JLatLng\<close>, \<open>JPoint\<close> and \<open>JSize\<close>
  are instances of \<open>google.maps.LatLng\<close>, \<open>google.maps.Point\<close> and \<open>google.maps.Size\<close>;
  the two constructors \<open>Point\<close> and \<open>Size\<close> store whatever arguments they are given.
\<close>

datatype number = Finite real | NaN | PosInf | NegInf

datatype jsval =
    JUndefined
  | JNull
  | JBool bool
  | JNum number
  | JStr string
  | JArr "jsval list"
  | JObj "(string \<times> jsval) list"
  | JFun nat
  | JLatLng real real
  | JPoint jsval jsval
  | JSize jsval jsval

type_synonym obj = "(string \<times> jsval) list"

text \<open>
  What is thrown: a \<open>TypeError\<close> of the language, or whatever a function that the
  options carry throws when it is called.
\<close>

datatype error = TypeError | Thrown jsval

text \<open>
  What the file takes from its surroundings: the table \<open>google.maps.SymbolPath\<close> (a
  lookup by property name, \<open>undefined\<close> for a name the table lacks), the text that the
  JavaScript engine prints for a number and for a function, and what a function does
  when it is called with a \<open>this\<close> and arguments: it returns a value or throws, and
  is taken to change nothing.
\<close>

record env =
  symbolPath :: "string \<Rightarrow> jsval"
  numberToString :: "number \<Rightarrow> string"
  functionToString :: "nat \<Rightarrow> string"
  callFunction :: "nat \<Rightarrow> jsval \<Rightarrow> jsval list \<Rightarrow> error + jsval"

subsection \<open>Objects as association lists\<close>

text \<open>
  The first binding of a key is the property; \<open>get\<close> reads a property (\<open>undefined\<close>
  when the object lacks it), \<open>put\<close> assigns one, \<open>has_own\<close> is what the inherited
  \<open>hasOwnProperty\<close> answers, and \<open>own_keys\<close> lists each key once, which is what
  \<open>for (key in o)\<close> and \<open>Object.keys\<close> enumerate on a plain object. The keys come
  in the order in which they were first added; the language leaves the order of
  \<open>for (key in o)\<close> to the engine, and no statement below depends on it.
\<close>

definition get :: "obj \<Rightarrow> string \<Rightarrow> jsval" where
  "get ob k = (case map_of ob k of None \<Rightarrow> JUndefined | Some v \<Rightarrow> v)"

fun put :: "obj \<Rightarrow> string \<Rightarrow> jsval \<Rightarrow> obj" where
  "put [] k v = [(k, v)]"
| "put ((k', v') # ps) k v = (if k' = k then (k, v) # ps else (k', v') # put ps k v)"

definition has_own :: "obj \<Rightarrow> string \<Rightarrow> bool" where
  "has_own ob k = (k \<in> set (map fst ob))"

definition own_keys :: "obj \<Rightarrow> string list" where
  "own_keys ob = rev (remdups (rev (map fst ob)))"

subsection \<open>Operators of the language\<close>

text \<open>\<open>typeof v === "undefined"\<close>, \<open>v instanceof google.maps.LatLng\<close> and
  \<open>v instanceof Object\<close>.\<close>

definition is_undefined :: "jsval \<Rightarrow> bool" where
  "is_undefined v = (v = JUndefined)"

fun instanceof_LatLng :: "jsval \<Rightarrow> bool" where
  "instanceof_LatLng (JLatLng a b) = True"
| "instanceof_LatLng v = False"

fun instanceof_Object :: "jsval \<Rightarrow> bool" where
  "instanceof_Object JUndefined = False"
| "instanceof_Object JNull = False"
| "instanceof_Object (JBool b) = False"
| "instanceof_Object (JNum n) = False"
| "instanceof_Object (JStr s) = False"
| "instanceof_Object v = True"

text \<open>The truth value of a value in a condition and in \<open>a || b\<close>.\<close>

fun truthy :: "jsval \<Rightarrow> bool" where
  "truthy JUndefined = False"
| "truthy JNull = False"
| "truthy (JBool b) = b"
| "truthy (JNum (Finite r)) = (r \<noteq> 0)"
| "truthy (JNum NaN) = False"
| "truthy (JNum PosInf) = True"
| "truthy (JNum NegInf) = True"
| "truthy (JStr s) = (s \<noteq> [])"
| "truthy v = True"

definition or_else :: "jsval \<Rightarrow> jsval \<Rightarrow> jsval" where
  "or_else a b = (if truthy a then a else b)"

text \<open>
  Reading the property \<open>v.name\<close>: a \<open>TypeError\<close> on \<open>undefined\<close> and \<open>null\<close>, the
  property of a plain object, and \<open>undefined\<close> on every other value. The names read in
  this file (\<open>path\<close>, \<open>text\<close>, \<open>color\<close>, \<open>fillColor\<close>, \<open>fillOpacity\<close>, \<open>strokeColor\<close>,
  \<open>strokeWeight\<close>) are not properties of a primitive, an array, a function or one of the
  three SDK values.
\<close>

fun read_prop :: "jsval \<Rightarrow> string \<Rightarrow> error + jsval" where
  "read_prop JUndefined k = Inl TypeError"
| "read_prop JNull k = Inl TypeError"
| "read_prop (JObj ob) k = Inr (get ob k)"
| "read_prop v k = Inr JUndefined"

text \<open>The decimal text of an index, which is the property name that \<open>o[i]\<close> reads on a
  plain object.\<close>

fun decimal :: "nat \<Rightarrow> string" where
  "decimal n =
     (if n < 10 then [char_of (48 + n)]
      else decimal (n div 10) @ [char_of (48 + n mod 10)])"

text \<open>
  Reading \<open>v[i]\<close>: a \<open>TypeError\<close> on \<open>undefined\<close> and \<open>null\<close>, an element of an
  array, a one-character string of a string, a property of a plain object, and
  \<open>undefined\<close> out of range and on every other value.
\<close>

fun index :: "jsval \<Rightarrow> nat \<Rightarrow> error + jsval" where
  "index JUndefined i = Inl TypeError"
| "index JNull i = Inl TypeError"
| "index (JArr xs) i = Inr (if i < length xs then xs ! i else JUndefined)"
| "index (JStr s) i = Inr (if i < length s then JStr [s ! i] else JUndefined)"
| "index (JObj ob) i = Inr (get ob (decimal i))"
| "index v i = Inr JUndefined"

text \<open>
  The conversion of a value to a string. \<open>"" + v\<close> converts with the hint
  \<open>HintDefault\<close> and \<open>table[v]\<close> converts \<open>v\<close> to a property name with the hint
  \<open>HintString\<close>. A primitive value is printed. An object is first made primitive by
  its methods \<open>valueOf\<close> and \<open>toString\<close>, in this order for \<open>HintDefault\<close> and in
  the other for \<open>HintString\<close>: a method is the object's own property of that name if
  it has one and the inherited method otherwise, a property that is no function is
  passed over, the first result that is primitive is taken, and a \<open>TypeError\<close> is
  thrown when there is none. The inherited \<open>valueOf\<close> returns the object, the
  inherited \<open>toString\<close> of a plain object returns \<open>[object Object]\<close>, that of an
  array joins the elements with commas (\<open>undefined\<close> and \<open>null\<close> giving the empty
  string), and a function, a coordinate, a point and a size print as the engine and
  the SDK print them.
\<close>

datatype hint = HintDefault | HintString

datatype prim = PUndefined | PNull | PBool bool | PNum number | PStr string

fun as_prim :: "jsval \<Rightarrow> prim option" where
  "as_prim JUndefined = Some PUndefined"
| "as_prim JNull = Some PNull"
| "as_prim (JBool b) = Some (PBool b)"
| "as_prim (JNum n) = Some (PNum n)"
| "as_prim (JStr s) = Some (PStr s)"
| "as_prim v = None"

fun prim_to_string :: "env \<Rightarrow> prim \<Rightarrow> string" where
  "prim_to_string e PUndefined = ''undefined''"
| "prim_to_string e PNull = ''null''"
| "prim_to_string e (PBool b) = (if b then ''true'' else ''false'')"
| "prim_to_string e (PNum n) = numberToString e n"
| "prim_to_string e (PStr s) = s"

definition call_method :: "env \<Rightarrow> obj \<Rightarrow> string \<Rightarrow> jsval \<Rightarrow> error + jsval option" where
  "call_method e ob name inherited =
     (if has_own ob name then
        (case get ob name of
           JFun f \<Rightarrow>
             (case callFunction e f (JObj ob) [] of
                Inl err \<Rightarrow> Inl err
              | Inr r \<Rightarrow> Inr (Some r))
         | _ \<Rightarrow> Inr None)
      else Inr (Some inherited))"

definition object_to_primitive :: "env \<Rightarrow> hint \<Rightarrow> obj \<Rightarrow> error + prim" where
  "object_to_primitive e h ob =
     (let toString = (''toString'', JStr ''[object Object]'');
          valueOf = (''valueOf'', JObj ob);
          (first, second) = (case h of HintString \<Rightarrow> (toString, valueOf)
                                      | HintDefault \<Rightarrow> (valueOf, toString))
      in case call_method e ob (fst first) (snd first) of
           Inl err \<Rightarrow> Inl err
         | Inr r1 \<Rightarrow>
             (case Option.bind r1 as_prim of
                Some p \<Rightarrow> Inr p
              | None \<Rightarrow>
                  (case call_method e ob (fst second) (snd second) of
                     Inl err \<Rightarrow> Inl err
                   | Inr r2 \<Rightarrow>
                       (case Option.bind r2 as_prim of
                          Some p \<Rightarrow> Inr p
                        | None \<Rightarrow> Inl TypeError))))"

fun to_string :: "env \<Rightarrow> hint \<Rightarrow> jsval \<Rightarrow> error + string"
  and join_elements :: "env \<Rightarrow> jsval list \<Rightarrow> error + string" where
  "to_string e h JUndefined = Inr ''undefined''"
| "to_string e h JNull = Inr ''null''"
| "to_string e h (JBool b) = Inr (if b then ''true'' else ''false'')"
| "to_string e h (JNum n) = Inr (numberToString e n)"
| "to_string e h (JStr s) = Inr s"
| "to_string e h (JArr xs) = join_elements e xs"
| "to_string e h (JObj ob) =
     (case object_to_primitive e h ob of
        Inl err \<Rightarrow> Inl err
      | Inr p \<Rightarrow> Inr (prim_to_string e p))"
| "to_string e h (JFun f) = Inr (functionToString e f)"
| "to_string e h (JLatLng a b) =
     Inr (''('' @ numberToString e (Finite a) @ '', '' @ numberToString e (Finite b) @ '')'')"
| "to_string e h (JPoint x y) =
     (case to_string e HintDefault x of
        Inl err \<Rightarrow> Inl err
      | Inr s \<Rightarrow>
          (case to_string e HintDefault y of
             Inl err \<Rightarrow> Inl err
           | Inr t \<Rightarrow> Inr (''('' @ s @ '', '' @ t @ '')'')))"
| "to_string e h (JSize w ht) =
     (case to_string e HintDefault w of
        Inl err \<Rightarrow> Inl err
      | Inr s \<Rightarrow>
          (case to_string e HintDefault ht of
             Inl err \<Rightarrow> Inl err
           | Inr t \<Rightarrow> Inr (''('' @ s @ '', '' @ t @ '')'')))"
| "join_elements e [] = Inr []"
| "join_elements e (x # xs) =
     (case (if x = JUndefined \<or> x = JNull then Inr [] else to_string e HintString x) of
        Inl err \<Rightarrow> Inl err
      | Inr s \<Rightarrow>
          (if xs = [] then Inr s
           else (case join_elements e xs of
                   Inl err \<Rightarrow> Inl err
                 | Inr t \<Rightarrow> Inr (s @ '','' @ t))))"

text \<open>\<open>s.match(/^[A-Z_]+$/)\<close>: at least one character, each an upper-case letter or an
  underscore.\<close>

definition symbol_char :: "char \<Rightarrow> bool" where
  "symbol_char c = (c \<in> set ''ABCDEFGHIJKLMNOPQRSTUVWXYZ_'')"

definition match_symbol_name :: "string \<Rightarrow> bool" where
  "match_symbol_name s = (s \<noteq> [] \<and> list_all symbol_char s)"

subsection \<open>The marker\<close>

text \<open>
  \<open>new google.maps.Marker(options)\<close> stores every option as a property of the marker
  (the file reads them back as \<open>marker.map\<close>, \<open>marker.zIndex\<close> and \<open>marker.icon\<close>);
  \<open>google.maps.event.addListener\<close> adds one listener, kept here in the order of
  registration.
\<close>

record marker =
  m_props :: obj
  m_listeners :: "(string \<times> jsval) list"

definition new_Marker :: "obj \<Rightarrow> marker" where
  "new_Marker options = \<lparr>m_props = options, m_listeners = []\<rparr>"

definition addListener :: "marker \<Rightarrow> string \<Rightarrow> jsval \<Rightarrow> marker" where
  "addListener m eventName handler = m\<lparr>m_listeners := m_listeners m @ [(eventName, handler)]\<rparr>"

definition setPosition :: "marker \<Rightarrow> jsval \<Rightarrow> marker" where
  "setPosition m latlng = m\<lparr>m_props := put (m_props m) ''position'' latlng\<rparr>"

subsection \<open>getMarker\<close>

text \<open>
  The call \<open>options.icon.hasOwnProperty(key)\<close> of line 52. The method is looked up on
  the icon: if the icon has an own property of the name \<open>hasOwnProperty\<close>, that
  property is called with the key, which throws a \<open>TypeError\<close> when it is no
  function; otherwise the inherited method answers whether the key is an own
  property. The condition is the truth value of the result.
\<close>

definition hasOwnProperty_call :: "env \<Rightarrow> obj \<Rightarrow> string \<Rightarrow> error + bool" where
  "hasOwnProperty_call e icon key =
     (if has_own icon ''hasOwnProperty'' then
        (case get icon ''hasOwnProperty'' of
           JFun f \<Rightarrow>
             (case callFunction e f (JObj icon) [JStr key] of
                Inl err \<Rightarrow> Inl err
              | Inr r \<Rightarrow> Inr (truthy r))
         | _ \<Rightarrow> Inl TypeError)
      else Inr (has_own icon key))"

text \<open>
  The body of the loop over the keys of \<open>options.icon\<close> (lines 52 to 59): \<open>arr\<close> is the
  value under the key, and \<open>arr[0]\<close>, \<open>arr[1]\<close> are read with no test of what \<open>arr\<close> is.
\<close>

definition icon_key_step :: "env \<Rightarrow> string \<Rightarrow> obj \<Rightarrow> error + obj" where
  "icon_key_step e key icon =
     (case hasOwnProperty_call e icon key of
        Inl err \<Rightarrow> Inl err
      | Inr own \<Rightarrow>
          if own then
            (let arr = get icon key in
             if key = ''anchor'' \<or> key = ''origin'' then
               (case index arr 0 of
                  Inl err \<Rightarrow> Inl err
                | Inr a \<Rightarrow>
                    (case index arr 1 of
                       Inl err \<Rightarrow> Inl err
                     | Inr b \<Rightarrow> Inr (put icon key (JPoint a b))))
             else if key = ''size'' \<or> key = ''scaledSize'' then
               (case index arr 0 of
                  Inl err \<Rightarrow> Inl err
                | Inr a \<Rightarrow>
                    (case index arr 1 of
                       Inl err \<Rightarrow> Inl err
                     | Inr b \<Rightarrow> Inr (put icon key (JSize a b))))
             else Inr icon)
          else Inr icon)"

fun icon_keys_loop :: "env \<Rightarrow> string list \<Rightarrow> obj \<Rightarrow> error + obj" where
  "icon_keys_loop e [] icon = Inr icon"
| "icon_keys_loop e (key # keys) icon =
     (case icon_key_step e key icon of
        Inl err \<Rightarrow> Inl err
      | Inr icon' \<Rightarrow> icon_keys_loop e keys icon')"

text \<open>
  Lines 47 to 61; \<open>set_icon_path\<close> is lines 48 to 50, where \<open>"" + options.icon.path\<close>
  is matched and, on a match, \<open>options.icon.path\<close> is converted once more, to the
  property name that is looked up in the table. Among the values that are instances
  of \<open>Object\<close>, only a plain object can hold a \<open>path\<close> or one of the four keys; an
  array, a function and the SDK values go through the block unchanged.
\<close>

definition set_icon_path :: "env \<Rightarrow> obj \<Rightarrow> error + obj" where
  "set_icon_path e icon =
     (case to_string e HintDefault (get icon ''path'') of
        Inl err \<Rightarrow> Inl err
      | Inr s \<Rightarrow>
          if match_symbol_name s then
            (case to_string e HintString (get icon ''path'') of
               Inl err \<Rightarrow> Inl err
             | Inr name \<Rightarrow> Inr (put icon ''path'' (symbolPath e name)))
          else Inr icon)"

definition set_icon :: "env \<Rightarrow> obj \<Rightarrow> error + obj" where
  "set_icon e options =
     (if instanceof_Object (get options ''icon'') then
        (case get options ''icon'' of
           JObj icon \<Rightarrow>
             (case set_icon_path e icon of
                Inl err \<Rightarrow> Inl err
              | Inr icon1 \<Rightarrow>
                  (case icon_keys_loop e (own_keys icon1) icon1 of
                     Inl err \<Rightarrow> Inl err
                   | Inr icon2 \<Rightarrow> Inr (put options ''icon'' (JObj icon2))))
         | _ \<Rightarrow> Inr options)
      else Inr options)"

text \<open>Lines 62 to 64 and 65 to 68.\<close>

definition set_position :: "obj \<Rightarrow> obj" where
  "set_position options =
     (if \<not> instanceof_LatLng (get options ''position'')
      then put options ''position'' (JLatLng 0 0)
      else options)"

definition set_zIndex :: "obj \<Rightarrow> obj" where
  "set_zIndex options =
     (if is_undefined (get options ''zIndex'') \<and> is_undefined (get options ''zIndex'')
         \<and> \<not> is_undefined (get options ''zindex'')
      then put options ''zIndex'' (get options ''zindex'')
      else options)"

text \<open>Lines 77 to 81: one listener for every event name that is not the empty string.\<close>

fun set_events :: "string list \<Rightarrow> obj \<Rightarrow> marker \<Rightarrow> marker" where
  "set_events [] events m = m"
| "set_events (eventName # names) events m =
     set_events names events
       (if eventName \<noteq> [] then addListener m eventName (get events eventName) else m)"

text \<open>
  \<open>getMarker\<close> changes the options object it is given, so the result is the options as
  they are afterwards together with the marker. The two calls of \<open>console.log\<close> in the
  file are not modelled.
\<close>

definition getMarker :: "env \<Rightarrow> obj \<Rightarrow> obj \<Rightarrow> error + (obj \<times> marker)" where
  "getMarker e options events =
     (case set_icon e options of
        Inl err \<Rightarrow> Inl err
      | Inr options1 \<Rightarrow>
          (let options2 = set_position options1;
               options3 = set_zIndex options2;
               m = new_Marker options3
           in Inr (options3, set_events (own_keys events) events m)))"

subsection \<open>The label\<close>

text \<open>
  The values that line 103 to 114 hand to \<open>new MarkerLabel\<close>, whose constructor stores
  them. The entries \<open>map\<close> and \<open>marker\<close> are references to objects of the SDK and are
  left out; the label's position is bound to the marker's by \<open>bindTo\<close> and is not a
  field of its own.
\<close>

record label =
  l_text :: jsval
  l_color :: jsval
  l_fillColor :: jsval
  l_fillOpacity :: jsval
  l_strokeColor :: jsval
  l_strokeWeight :: jsval
  l_zIndex :: jsval
  l_backgroundColor :: jsval

definition new_MarkerLabel :: "jsval \<Rightarrow> marker \<Rightarrow> error + label" where
  "new_MarkerLabel customlabel m =
     (case read_prop customlabel ''text'' of Inl err \<Rightarrow> Inl err | Inr text \<Rightarrow>
     (case read_prop customlabel ''color'' of Inl err \<Rightarrow> Inl err | Inr color \<Rightarrow>
     (case read_prop customlabel ''fillColor'' of Inl err \<Rightarrow> Inl err | Inr fillColor \<Rightarrow>
     (case read_prop customlabel ''fillOpacity'' of Inl err \<Rightarrow> Inl err | Inr fillOpacity \<Rightarrow>
     (case read_prop customlabel ''strokeColor'' of Inl err \<Rightarrow> Inl err | Inr strokeColor \<Rightarrow>
     (case read_prop customlabel ''strokeWeight'' of Inl err \<Rightarrow> Inl err | Inr strokeWeight \<Rightarrow>
     (case read_prop (get (m_props m) ''icon'') ''fillColor'' of Inl err \<Rightarrow> Inl err
      | Inr iconFillColor \<Rightarrow>
        Inr \<lparr>l_text = text,
             l_color = or_else color (JStr ''#000000''),
             l_fillColor = or_else fillColor (JStr ''#ffffff''),
             l_fillOpacity = or_else fillOpacity (JNum (Finite 1)),
             l_strokeColor = or_else strokeColor (JStr ''#ffffff''),
             l_strokeWeight = or_else strokeWeight (JNum (Finite 1)),
             l_zIndex = or_else (get (m_props m) ''zIndex'') (JStr ''auto''),
             l_backgroundColor = or_else iconFillColor (JStr ''transparent'')\<rparr>)))))))"

subsection \<open>linkFunc\<close>

text \<open>
  The calls that the directive makes on the map controller and on \<open>$parse\<close>. A marker
  argument is the marker as it is when the call is made.
\<close>

datatype call =
    AddObject string marker
  | GetGeoLocation jsval
  | ObserveAttrSetObj marker
  | ZoomToIncludeMarkers
  | ParseEval jsval
  | DeleteObject string marker

text \<open>
  What a linked directive consists of: its marker, the label in \<open>marker.MarkerLabel\<close>
  if there is one, whether the function given to \<open>then\<close> is still waiting for the
  geocode lookup, and the calls made so far.
\<close>

record directive =
  d_marker :: marker
  d_label :: "label option"
  d_pending :: bool
  d_calls :: "call list"

text \<open>
  Lines 88 to 135. The arguments are what the attribute parser returns for the element
  (\<open>markerOptions\<close>, \<open>markerEvents\<close>). When the function throws, the result is the
  error together with the calls made before it. The variable \<open>address\<close> is declared
  without a value, so it is \<open>undefined\<close> unless line 96 assigns it; \<open>address_of\<close> is
  lines 94 to 97. The function ends by binding the handler of \<open>$destroy\<close>, so a
  directive has that handler exactly when the function has returned.
\<close>

definition address_of :: "obj \<Rightarrow> jsval" where
  "address_of markerOptions =
     (if \<not> instanceof_LatLng (get markerOptions ''position'')
      then get markerOptions ''position'' else JUndefined)"

definition linkFunc :: "env \<Rightarrow> obj \<Rightarrow> obj \<Rightarrow> (error \<times> call list) + directive" where
  "linkFunc e markerOptions markerEvents =
     (let address = address_of markerOptions
      in case getMarker e markerOptions markerEvents of
           Inl err \<Rightarrow> Inl (err, [])
         | Inr (markerOptions', m) \<Rightarrow>
             (case (if \<not> is_undefined (get markerOptions' ''customlabel'')
                    then (case new_MarkerLabel (get markerOptions' ''customlabel'') m of
                            Inl err \<Rightarrow> Inl err
                          | Inr l \<Rightarrow> Inr (Some l))
                    else Inr None) of
                Inl err \<Rightarrow> Inl (err, [AddObject ''markers'' m])
              | Inr lbl \<Rightarrow>
                  Inr \<lparr>d_marker = m, d_label = lbl, d_pending = truthy address,
                       d_calls = [AddObject ''markers'' m]
                         @ (if truthy address then [GetGeoLocation address] else [])
                         @ [ObserveAttrSetObj m]\<rparr>))"

text \<open>
  The function given to \<open>then\<close> (lines 119 to 125), run with the coordinate that the
  lookup resolved to; \<open>geoCallback\<close> is the value that \<open>attrs.geoCallback\<close> has when
  the function runs.
\<close>

definition then_callback :: "real \<Rightarrow> real \<Rightarrow> jsval \<Rightarrow> directive \<Rightarrow> directive" where
  "then_callback lat lng geoCallback d =
     d\<lparr>d_marker := setPosition (d_marker d) (JLatLng lat lng),
       d_calls := d_calls d @ [ZoomToIncludeMarkers]
         @ (if truthy geoCallback then [ParseEval geoCallback] else [])\<rparr>"

text \<open>A promise runs the function given to \<open>then\<close> when it resolves, and only once.\<close>

definition geo_resolved :: "real \<Rightarrow> real \<Rightarrow> jsval \<Rightarrow> directive \<Rightarrow> directive" where
  "geo_resolved lat lng geoCallback d =
     (if d_pending d then then_callback lat lng geoCallback (d\<lparr>d_pending := False\<rparr>)
      else d)"

text \<open>The handler bound to \<open>$destroy\<close> (lines 132 to 134).\<close>

definition destroy_handler :: "directive \<Rightarrow> directive" where
  "destroy_handler d = d\<lparr>d_calls := d_calls d @ [DeleteObject ''markers'' (d_marker d)]\<rparr>"

text \<open>
  The destruction of the element. Binding the handler is the last statement of
  \<open>linkFunc\<close>: when the function has returned, the handler runs; when it has
  thrown, no handler is bound and nothing more is called. The result is the list of
  the calls made up to and including the destruction.
\<close>

fun element_destroyed :: "(error \<times> call list) + directive \<Rightarrow> call list" where
  "element_destroyed (Inr d) = d_calls (destroy_handler d)"
| "element_destroyed (Inl (err, calls)) = calls"

subsection \<open>Reading the list of calls\<close>

fun is_GetGeoLocation :: "call \<Rightarrow> bool" where
  "is_GetGeoLocation (GetGeoLocation a) = True"
| "is_GetGeoLocation c = False"

fun is_ParseEval :: "call \<Rightarrow> bool" where
  "is_ParseEval (ParseEval x) = True"
| "is_ParseEval c = False"

fun is_DeleteObject :: "call \<Rightarrow> bool" where
  "is_DeleteObject (DeleteObject g m) = True"
| "is_DeleteObject c = False"

subsection \<open>An environment for the examples\<close>

text \<open>
  The five entries of \<open>google.maps.SymbolPath\<close>, a printer of numbers that is right
  on the whole numbers below \<open>10^21\<close>, and functions that return \<open>undefined\<close>. No
  statement below depends on this choice: the theorems hold for every environment.
\<close>

definition example_env :: env where
  "example_env =
     \<lparr>symbolPath = get [(''CIRCLE'', JNum (Finite 0)),
                        (''FORWARD_CLOSED_ARROW'', JNum (Finite 1)),
                        (''FORWARD_OPEN_ARROW'', JNum (Finite 2)),
                        (''BACKWARD_CLOSED_ARROW'', JNum (Finite 3)),
                        (''BACKWARD_OPEN_ARROW'', JNum (Finite 4))],
      numberToString = (\<lambda>n. case n of
          Finite r \<Rightarrow> (if r < 0 then ''-'' else []) @ decimal (nat \<lfloor>\<bar>r\<bar>\<rfloor>)
        | NaN \<Rightarrow> ''NaN'' | PosInf \<Rightarrow> ''Infinity'' | NegInf \<Rightarrow> ''-Infinity''),
      functionToString = (\<lambda>f. ''function () {}''),
      callFunction = (\<lambda>f this args. Inr JUndefined)\<rparr>"

text \<open>
  The inputs of the examples, and what \<open>getMarker\<close> makes of them. \<open>marker_of\<close> is a
  marker without listeners.
\<close>

abbreviation marker_of :: "obj \<Rightarrow> marker" where
  "marker_of props \<equiv> \<lparr>m_props = props, m_listeners = []\<rparr>"

abbreviation cn_tower :: obj where
  "cn_tower \<equiv> [(''position'', JStr ''the cn tower'')]"

abbreviation at_origin :: obj where
  "at_origin \<equiv> [(''position'', JLatLng 0 0)]"

abbreviation at_cn_tower :: obj where
  "at_cn_tower \<equiv> [(''position'', JLatLng (436426 / 10000) (- (793871 / 10000)))]"

abbreviation cn_tower_linked :: directive where
  "cn_tower_linked \<equiv>
     \<lparr>d_marker = marker_of at_origin, d_label = None, d_pending = True,
      d_calls = [AddObject ''markers'' (marker_of at_origin),
                 GetGeoLocation (JStr ''the cn tower''),
                 ObserveAttrSetObj (marker_of at_origin)]\<rparr>"

abbreviation cn_tower_resolved :: directive where
  "cn_tower_resolved \<equiv>
     \<lparr>d_marker = marker_of at_cn_tower, d_label = None, d_pending = False,
      d_calls = [AddObject ''markers'' (marker_of at_origin),
                 GetGeoLocation (JStr ''the cn tower''),
                 ObserveAttrSetObj (marker_of at_origin),
                 ZoomToIncludeMarkers,
                 ParseEval (JStr ''showStoreInfo()'')]\<rparr>"

abbreviation legacy_z :: obj where
  "legacy_z \<equiv> [(''zindex'', JNum (Finite 7))]"

abbreviation legacy_z_done :: obj where
  "legacy_z_done \<equiv>
     [(''zindex'', JNum (Finite 7)), (''position'', JLatLng 0 0), (''zIndex'', JNum (Finite 7))]"

abbreviation circle :: obj where
  "circle \<equiv> [(''icon'', JObj [(''path'', JStr ''CIRCLE'')])]"

abbreviation circle_done :: obj where
  "circle_done \<equiv> [(''icon'', JObj [(''path'', JNum (Finite 0))]), (''position'', JLatLng 0 0)]"

abbreviation pairs_icon :: obj where
  "pairs_icon \<equiv>
     [(''anchor'', JArr [JNum (Finite 1), JNum (Finite 2)]),
      (''scaledSize'', JArr [JNum (Finite 3), JNum (Finite 4)])]"

abbreviation pairs_done :: obj where
  "pairs_done \<equiv>
     [(''icon'', JObj [(''anchor'', JPoint (JNum (Finite 1)) (JNum (Finite 2))),
                       (''scaledSize'', JSize (JNum (Finite 3)) (JNum (Finite 4)))]),
      (''position'', JLatLng 0 0)]"

abbreviation five_icon :: obj where
  "five_icon \<equiv> [(''anchor'', JNum (Finite 5)), (''fillColor'', JStr ''red'')]"

abbreviation five_done :: obj where
  "five_done \<equiv>
     [(''icon'', JObj [(''anchor'', JPoint JUndefined JUndefined), (''fillColor'', JStr ''red'')]),
      (''position'', JLatLng 0 0)]"

abbreviation label_A :: obj where
  "label_A \<equiv> [(''text'', JStr ''A'')]"

abbreviation red_labelled :: obj where
  "red_labelled \<equiv>
     [(''position'', JLatLng 40 (- 74)), (''icon'', JObj [(''fillColor'', JStr ''red'')]),
      (''customlabel'', JObj label_A)]"

abbreviation red_labelled_linked :: directive where
  "red_labelled_linked \<equiv>
     \<lparr>d_marker = marker_of red_labelled,
      d_label = Some
        \<lparr>l_text = JStr ''A'', l_color = JStr ''#000000'', l_fillColor = JStr ''#ffffff'',
         l_fillOpacity = JNum (Finite 1), l_strokeColor = JStr ''#ffffff'',
         l_strokeWeight = JNum (Finite 1), l_zIndex = JStr ''auto'',
         l_backgroundColor = JStr ''red''\<rparr>,
      d_pending = False,
      d_calls = [AddObject ''markers'' (marker_of red_labelled),
                 ObserveAttrSetObj (marker_of red_labelled)]\<rparr>"

abbreviation label_zeros :: obj where
  "label_zeros \<equiv>
     [(''text'', JStr ''A''), (''fillOpacity'', JNum (Finite 0)),
      (''strokeWeight'', JNum (Finite 0))]"

abbreviation zeros_labelled :: obj where
  "zeros_labelled \<equiv> [(''icon'', JStr ''pin.png''), (''customlabel'', JObj label_zeros)]"

abbreviation zeros_labelled_done :: obj where
  "zeros_labelled_done \<equiv>
     [(''icon'', JStr ''pin.png''), (''customlabel'', JObj label_zeros),
      (''position'', JLatLng 0 0)]"

abbreviation zeros_labelled_linked :: directive where
  "zeros_labelled_linked \<equiv>
     \<lparr>d_marker = marker_of zeros_labelled_done,
      d_label = Some
        \<lparr>l_text = JStr ''A'', l_color = JStr ''#000000'', l_fillColor = JStr ''#ffffff'',
         l_fillOpacity = JNum (Finite 1), l_strokeColor = JStr ''#ffffff'',
         l_strokeWeight = JNum (Finite 1), l_zIndex = JStr ''auto'',
         l_backgroundColor = JStr ''transparent''\<rparr>,
      d_pending = False,
      d_calls = [AddObject ''markers'' (marker_of zeros_labelled_done),
                 ObserveAttrSetObj (marker_of zeros_labelled_done)]\<rparr>"

section \<open>Lemmas\<close>

subsection \<open>Association lists\<close>

lemma get_put: "get (put ob k v) k' = (if k' = k then v else get ob k')"
  by (induction ob) (auto simp: get_def)

lemma keys_put: "set (map fst (put ob k v)) = insert k (set (map fst ob))"
  by (induction ob k v rule: put.induct) auto

lemma has_own_put: "has_own (put ob k v) k' = (k' = k \<or> has_own ob k')"
  unfolding has_own_def keys_put by auto

lemma get_has_own: "get ob k \<noteq> JUndefined \<Longrightarrow> has_own ob k"
proof -
  assume "get ob k \<noteq> JUndefined"
  then obtain v where "map_of ob k = Some v"
    by (auto simp: get_def split: option.splits)
  then have "(k, v) \<in> set ob" by (rule map_of_SomeD)
  then show ?thesis by (force simp: has_own_def)
qed

lemma set_own_keys: "k \<in> set (own_keys ob) = has_own ob k"
  by (simp add: own_keys_def has_own_def)

lemma distinct_own_keys: "distinct (own_keys ob)"
  by (simp add: own_keys_def)

subsection \<open>The loop over the keys of the icon\<close>

lemma hasOwnProperty_call_inherited:
  "\<not> has_own icon ''hasOwnProperty'' \<Longrightarrow> hasOwnProperty_call e icon key = Inr (has_own icon key)"
  by (simp add: hasOwnProperty_call_def)

lemma icon_key_step_throws:
  "hasOwnProperty_call e icon key = Inl err \<Longrightarrow> icon_key_step e key icon = Inl err"
  by (simp add: icon_key_step_def)

lemma icon_key_step_not_own:
  "hasOwnProperty_call e icon key = Inr False \<Longrightarrow> icon_key_step e key icon = Inr icon"
  by (simp add: icon_key_step_def)

lemma icon_key_step_point:
  "hasOwnProperty_call e icon key = Inr True \<Longrightarrow> key = ''anchor'' \<or> key = ''origin'' \<Longrightarrow>
   icon_key_step e key icon =
     (case index (get icon key) 0 of Inl err \<Rightarrow> Inl err
      | Inr a \<Rightarrow> (case index (get icon key) 1 of Inl err \<Rightarrow> Inl err
                 | Inr b \<Rightarrow> Inr (put icon key (JPoint a b))))"
  unfolding icon_key_step_def Let_def by (erule disjE) simp_all

lemma icon_key_step_size:
  "hasOwnProperty_call e icon key = Inr True \<Longrightarrow> key = ''size'' \<or> key = ''scaledSize'' \<Longrightarrow>
   icon_key_step e key icon =
     (case index (get icon key) 0 of Inl err \<Rightarrow> Inl err
      | Inr a \<Rightarrow> (case index (get icon key) 1 of Inl err \<Rightarrow> Inl err
                 | Inr b \<Rightarrow> Inr (put icon key (JSize a b))))"
  unfolding icon_key_step_def Let_def by (erule disjE) simp_all

lemma icon_key_step_plain:
  "key \<noteq> ''anchor'' \<Longrightarrow> key \<noteq> ''origin'' \<Longrightarrow> key \<noteq> ''size'' \<Longrightarrow> key \<noteq> ''scaledSize''
   \<Longrightarrow> icon_key_step e key icon = Inr icon1 \<Longrightarrow> icon1 = icon"
  by (cases "hasOwnProperty_call e icon key")
     (auto simp: icon_key_step_def Let_def split: if_splits)

text \<open>A step leaves the icon as it is or assigns the key, and it assigns none but the
  four names.\<close>

lemma icon_key_step_shape:
  assumes "icon_key_step e key icon = Inr icon1"
  shows "icon1 = icon \<or>
         ((key = ''anchor'' \<or> key = ''origin'' \<or> key = ''size'' \<or> key = ''scaledSize'')
          \<and> (\<exists>v. icon1 = put icon key v))"
proof (cases "hasOwnProperty_call e icon key")
  case (Inl err)
  with assms show ?thesis by (simp add: icon_key_step_throws)
next
  case (Inr own)
  show ?thesis
  proof (cases own)
    case False
    with Inr assms show ?thesis by (simp add: icon_key_step_not_own)
  next
    case True
    with Inr have g: "hasOwnProperty_call e icon key = Inr True" by simp
    show ?thesis
    proof (cases "key = ''anchor'' \<or> key = ''origin''")
      case True
      with g assms show ?thesis
        by (auto simp: icon_key_step_point split: sum.splits)
    next
      case no_point: False
      show ?thesis
      proof (cases "key = ''size'' \<or> key = ''scaledSize''")
        case True
        with g assms show ?thesis
          by (auto simp: icon_key_step_size split: sum.splits)
      next
        case False
        with no_point assms have "icon1 = icon" by (auto dest: icon_key_step_plain)
        then show ?thesis by simp
      qed
    qed
  qed
qed

lemma icon_key_step_other:
  "icon_key_step e key icon = Inr icon1 \<Longrightarrow> k \<noteq> key \<Longrightarrow> get icon1 k = get icon k"
  by (drule icon_key_step_shape) (auto simp: get_put)

lemma icon_key_step_has_own:
  "icon_key_step e key icon = Inr icon1 \<Longrightarrow> has_own icon k \<Longrightarrow> has_own icon1 k"
  by (drule icon_key_step_shape) (auto simp: has_own_put)

lemma icon_key_step_inherited:
  assumes "icon_key_step e key icon = Inr icon1" "\<not> has_own icon ''hasOwnProperty''"
  shows "\<not> has_own icon1 ''hasOwnProperty''"
  using icon_key_step_shape [OF assms(1)] assms(2) by (auto simp: has_own_put)

lemma icon_keys_loop_untouched:
  "icon_keys_loop e keys icon = Inr icon' \<Longrightarrow> k \<notin> set keys \<Longrightarrow> get icon' k = get icon k"
proof (induction keys arbitrary: icon)
  case Nil
  then show ?case by simp
next
  case (Cons key keys)
  from Cons.prems(1) obtain icon1 where
    s: "icon_key_step e key icon = Inr icon1" and l: "icon_keys_loop e keys icon1 = Inr icon'"
    by (auto split: sum.splits)
  from Cons.prems(2) have "k \<noteq> key" "k \<notin> set keys" by auto
  with Cons.IH [OF l] icon_key_step_other [OF s] show ?case by simp
qed

lemma icon_keys_loop_plain:
  assumes "icon_keys_loop e keys icon = Inr icon'"
    and "k \<noteq> ''anchor''" "k \<noteq> ''origin''" "k \<noteq> ''size''" "k \<noteq> ''scaledSize''"
  shows "get icon' k = get icon k"
  using assms(1)
proof (induction keys arbitrary: icon)
  case Nil
  then show ?case by simp
next
  case (Cons key keys)
  from Cons.prems obtain icon1 where
    s: "icon_key_step e key icon = Inr icon1" and l: "icon_keys_loop e keys icon1 = Inr icon'"
    by (auto split: sum.splits)
  have "get icon1 k = get icon k"
  proof (cases "k = key")
    case True
    with assms(2-5) s have "icon1 = icon" by (auto dest: icon_key_step_plain)
    then show ?thesis by simp
  next
    case False
    with s show ?thesis by (rule icon_key_step_other)
  qed
  with Cons.IH [OF l] show ?case by simp
qed

text \<open>
  On an icon that leaves \<open>hasOwnProperty\<close> to the inherited method, a loop that
  returns has replaced every own sub-field of the four names.
\<close>

lemma icon_keys_loop_point:
  assumes "icon_keys_loop e keys icon = Inr icon'" "distinct keys" "k \<in> set keys"
    "has_own icon k" "\<not> has_own icon ''hasOwnProperty''" "k = ''anchor'' \<or> k = ''origin''"
  shows "\<exists>a b. index (get icon k) 0 = Inr a \<and> index (get icon k) 1 = Inr b
               \<and> get icon' k = JPoint a b"
  using assms(1-5)
proof (induction keys arbitrary: icon)
  case Nil
  then show ?case by simp
next
  case (Cons key keys)
  from Cons.prems(1) obtain icon1 where
    s: "icon_key_step e key icon = Inr icon1" and l: "icon_keys_loop e keys icon1 = Inr icon'"
    by (auto split: sum.splits)
  show ?case
  proof (cases "k = key")
    case True
    with Cons.prems(2) have "k \<notin> set keys" by simp
    with l have u: "get icon' k = get icon1 k" by (rule icon_keys_loop_untouched)
    from True Cons.prems(4,5) have "hasOwnProperty_call e icon key = Inr True"
      by (simp add: hasOwnProperty_call_inherited)
    with s True assms(6)
    have "\<exists>a b. index (get icon k) 0 = Inr a \<and> index (get icon k) 1 = Inr b
                 \<and> get icon1 k = JPoint a b"
      by (auto simp: icon_key_step_point get_put split: sum.splits)
    with u show ?thesis by simp
  next
    case False
    with Cons.prems have "distinct keys" "k \<in> set keys" by auto
    moreover from s Cons.prems(4) have "has_own icon1 k" by (rule icon_key_step_has_own)
    moreover from s Cons.prems(5) have "\<not> has_own icon1 ''hasOwnProperty''"
      by (rule icon_key_step_inherited)
    ultimately have "\<exists>a b. index (get icon1 k) 0 = Inr a \<and> index (get icon1 k) 1 = Inr b
                 \<and> get icon' k = JPoint a b"
      using Cons.IH [OF l] by simp
    with icon_key_step_other [OF s False] show ?thesis by simp
  qed
qed

lemma icon_keys_loop_size:
  assumes "icon_keys_loop e keys icon = Inr icon'" "distinct keys" "k \<in> set keys"
    "has_own icon k" "\<not> has_own icon ''hasOwnProperty''" "k = ''size'' \<or> k = ''scaledSize''"
  shows "\<exists>a b. index (get icon k) 0 = Inr a \<and> index (get icon k) 1 = Inr b
               \<and> get icon' k = JSize a b"
  using assms(1-5)
proof (induction keys arbitrary: icon)
  case Nil
  then show ?case by simp
next
  case (Cons key keys)
  from Cons.prems(1) obtain icon1 where
    s: "icon_key_step e key icon = Inr icon1" and l: "icon_keys_loop e keys icon1 = Inr icon'"
    by (auto split: sum.splits)
  show ?case
  proof (cases "k = key")
    case True
    with Cons.prems(2) have "k \<notin> set keys" by simp
    with l have u: "get icon' k = get icon1 k" by (rule icon_keys_loop_untouched)
    from True Cons.prems(4,5) have "hasOwnProperty_call e icon key = Inr True"
      by (simp add: hasOwnProperty_call_inherited)
    with s True assms(6)
    have "\<exists>a b. index (get icon k) 0 = Inr a \<and> index (get icon k) 1 = Inr b
                 \<and> get icon1 k = JSize a b"
      by (auto simp: icon_key_step_size get_put split: sum.splits)
    with u show ?thesis by simp
  next
    case False
    with Cons.prems have "distinct keys" "k \<in> set keys" by auto
    moreover from s Cons.prems(4) have "has_own icon1 k" by (rule icon_key_step_has_own)
    moreover from s Cons.prems(5) have "\<not> has_own icon1 ''hasOwnProperty''"
      by (rule icon_key_step_inherited)
    ultimately have "\<exists>a b. index (get icon1 k) 0 = Inr a \<and> index (get icon1 k) 1 = Inr b
                 \<and> get icon' k = JSize a b"
      using Cons.IH [OF l] by simp
    with icon_key_step_other [OF s False] show ?thesis by simp
  qed
qed

subsection \<open>What getMarker leaves in the options\<close>

lemma set_events_props: "m_props (set_events names events m) = m_props m"
  by (induction names arbitrary: m) (simp_all add: addListener_def)

lemma getMarker_Inr:
  assumes "getMarker e options events = Inr (options', m)"
  obtains options1 where "set_icon e options = Inr options1"
    and "options' = set_zIndex (set_position options1)" and "m_props m = options'"
  using assms
  by (auto simp: getMarker_def Let_def new_Marker_def set_events_props split: sum.splits)

lemma set_icon_other:
  assumes "set_icon e options = Inr options1" "k \<noteq> ''icon''"
  shows "get options1 k = get options k"
proof (cases "get options ''icon''")
  case (JObj icon)
  with assms show ?thesis
    by (auto simp: set_icon_def get_put split: sum.splits)
qed (use assms in \<open>simp_all add: set_icon_def\<close>)

lemma set_icon_icon:
  assumes "set_icon e options = Inr options1" "get options ''icon'' = JObj icon"
  shows "\<exists>icon1 icon2. set_icon_path e icon = Inr icon1 \<and>
     icon_keys_loop e (own_keys icon1) icon1 = Inr icon2 \<and> get options1 ''icon'' = JObj icon2"
  using assms by (auto simp: set_icon_def get_put split: sum.splits)

lemma set_position_get:
  "get (set_position options) k =
     (if k = ''position'' \<and> \<not> instanceof_LatLng (get options ''position'')
      then JLatLng 0 0 else get options k)"
  by (simp add: set_position_def get_put)

lemma set_zIndex_get:
  "get (set_zIndex options) k =
     (if k = ''zIndex'' \<and> get options ''zIndex'' = JUndefined
         \<and> get options ''zindex'' \<noteq> JUndefined
      then get options ''zindex'' else get options k)"
  by (simp add: set_zIndex_def get_put is_undefined_def)

lemma getMarker_get:
  assumes "getMarker e options events = Inr (options', m)" "k \<noteq> ''icon''"
  shows "get (m_props m) k = get (set_zIndex (set_position options)) k"
proof -
  from assms(1) obtain options1 where i: "set_icon e options = Inr options1"
    and o: "options' = set_zIndex (set_position options1)" and p: "m_props m = options'"
    by (rule getMarker_Inr)
  have "\<And>k. k \<noteq> ''icon'' \<Longrightarrow> get options1 k = get options k"
    using i by (rule set_icon_other)
  then have "get options1 ''position'' = get options ''position''"
    "get options1 ''zIndex'' = get options ''zIndex''"
    "get options1 ''zindex'' = get options ''zindex''"
    "get options1 k = get options k"
    using assms(2) by simp_all
  then show ?thesis
    unfolding p o by (simp add: set_zIndex_get set_position_get)
qed

lemma getMarker_icon:
  assumes "getMarker e options events = Inr (options', m)" "get options ''icon'' = JObj icon"
  shows "\<exists>icon1 icon2. set_icon_path e icon = Inr icon1 \<and>
     icon_keys_loop e (own_keys icon1) icon1 = Inr icon2 \<and> get (m_props m) ''icon'' = JObj icon2"
proof -
  from assms(1) obtain options1 where i: "set_icon e options = Inr options1"
    and o: "options' = set_zIndex (set_position options1)" and p: "m_props m = options'"
    by (rule getMarker_Inr)
  have "get (m_props m) ''icon'' = get options1 ''icon''"
    unfolding p o by (simp add: set_zIndex_get set_position_get)
  with set_icon_icon [OF i assms(2)] show ?thesis by simp
qed

lemma set_icon_path_shape:
  "set_icon_path e icon = Inr icon1 \<Longrightarrow> icon1 = icon \<or> (\<exists>v. icon1 = put icon ''path'' v)"
  by (auto simp: set_icon_path_def split: sum.splits if_splits)

lemma set_icon_path_string:
  "get icon ''path'' = JStr s \<Longrightarrow>
   set_icon_path e icon =
     Inr (if match_symbol_name s then put icon ''path'' (symbolPath e s) else icon)"
  by (simp add: set_icon_path_def)

lemma set_icon_path_get:
  "set_icon_path e icon = Inr icon1 \<Longrightarrow> k \<noteq> ''path'' \<Longrightarrow> get icon1 k = get icon k"
  by (drule set_icon_path_shape) (auto simp: get_put)

lemma set_icon_path_has_own:
  "set_icon_path e icon = Inr icon1 \<Longrightarrow> has_own icon k \<Longrightarrow> has_own icon1 k"
  by (drule set_icon_path_shape) (auto simp: has_own_put)

lemma set_icon_path_inherited:
  "set_icon_path e icon = Inr icon1 \<Longrightarrow> \<not> has_own icon ''hasOwnProperty''
   \<Longrightarrow> \<not> has_own icon1 ''hasOwnProperty''"
  by (drule set_icon_path_shape) (auto simp: has_own_put)

lemma getMarker_icon_key:
  assumes "getMarker e options events = Inr (options', m)"
    and "get options ''icon'' = JObj icon" and "has_own icon k"
    and "\<not> has_own icon ''hasOwnProperty''"
  shows "((k = ''anchor'' \<or> k = ''origin'') \<longrightarrow>
            (\<exists>a b. index (get icon k) 0 = Inr a \<and> index (get icon k) 1 = Inr b
               \<and> read_prop (get (m_props m) ''icon'') k = Inr (JPoint a b)))
       \<and> ((k = ''size'' \<or> k = ''scaledSize'') \<longrightarrow>
            (\<exists>a b. index (get icon k) 0 = Inr a \<and> index (get icon k) 1 = Inr b
               \<and> read_prop (get (m_props m) ''icon'') k = Inr (JSize a b)))"
proof -
  from getMarker_icon [OF assms(1,2)] obtain icon1 icon2 where
    p: "set_icon_path e icon = Inr icon1" and
    l: "icon_keys_loop e (own_keys icon1) icon1 = Inr icon2" and
    g: "get (m_props m) ''icon'' = JObj icon2"
    by blast
  from p assms(3) have own: "has_own icon1 k" by (rule set_icon_path_has_own)
  then have mem: "k \<in> set (own_keys icon1)" by (simp add: set_own_keys)
  have d: "distinct (own_keys icon1)" by (rule distinct_own_keys)
  from p assms(4) have inh: "\<not> has_own icon1 ''hasOwnProperty''"
    by (rule set_icon_path_inherited)
  show ?thesis
  proof (intro conjI impI)
    assume n: "k = ''anchor'' \<or> k = ''origin''"
    then have "k \<noteq> ''path''" by auto
    with p have same: "get icon1 k = get icon k" by (rule set_icon_path_get)
    from icon_keys_loop_point [OF l d mem own inh n] same g
    show "\<exists>a b. index (get icon k) 0 = Inr a \<and> index (get icon k) 1 = Inr b
               \<and> read_prop (get (m_props m) ''icon'') k = Inr (JPoint a b)"
      by simp
  next
    assume n: "k = ''size'' \<or> k = ''scaledSize''"
    then have "k \<noteq> ''path''" by auto
    with p have same: "get icon1 k = get icon k" by (rule set_icon_path_get)
    from icon_keys_loop_size [OF l d mem own inh n] same g
    show "\<exists>a b. index (get icon k) 0 = Inr a \<and> index (get icon k) 1 = Inr b
               \<and> read_prop (get (m_props m) ''icon'') k = Inr (JSize a b)"
      by simp
  qed
qed

subsection \<open>What a completed link consists of\<close>

lemma getMarker_customlabel:
  assumes "getMarker e options events = Inr (options', m)"
  shows "get options' ''customlabel'' = get options ''customlabel''"
proof -
  from assms obtain options1 where "m_props m = options'" by (rule getMarker_Inr)
  with getMarker_get [OF assms, of "''customlabel''"] show ?thesis
    by (simp add: set_zIndex_get set_position_get)
qed

lemma linkFunc_Inr:
  assumes "linkFunc e markerOptions markerEvents = Inr d"
  obtains options' lbl where
    "getMarker e markerOptions markerEvents = Inr (options', d_marker d)"
    "d_pending d = truthy (address_of markerOptions)"
    "d_calls d = [AddObject ''markers'' (d_marker d)]
       @ (if truthy (address_of markerOptions)
          then [GetGeoLocation (address_of markerOptions)] else [])
       @ [ObserveAttrSetObj (d_marker d)]"
    "d_label d = lbl"
    "(if \<not> is_undefined (get options' ''customlabel'')
      then (case new_MarkerLabel (get options' ''customlabel'') (d_marker d) of
              Inl err \<Rightarrow> Inl err | Inr l \<Rightarrow> Inr (Some l))
      else Inr None) = Inr lbl"
proof -
  from assms obtain options' m where
    g: "getMarker e markerOptions markerEvents = Inr (options', m)"
    by (auto simp: linkFunc_def Let_def split: sum.splits)
  with assms obtain lbl where
    l: "(if \<not> is_undefined (get options' ''customlabel'')
      then (case new_MarkerLabel (get options' ''customlabel'') m of
              Inl err \<Rightarrow> Inl err | Inr l \<Rightarrow> Inr (Some l))
      else Inr None) = Inr lbl"
    by (cases "(if \<not> is_undefined (get options' ''customlabel'')
      then (case new_MarkerLabel (get options' ''customlabel'') m of
              Inl err \<Rightarrow> Inl err | Inr l \<Rightarrow> Inr (Some l))
      else Inr None)") (simp_all add: linkFunc_def Let_def)
  from assms g l have
    d: "d = \<lparr>d_marker = m, d_label = lbl,
            d_pending = truthy (address_of markerOptions),
            d_calls = [AddObject ''markers'' m]
              @ (if truthy (address_of markerOptions)
                 then [GetGeoLocation (address_of markerOptions)] else [])
              @ [ObserveAttrSetObj m]\<rparr>"
    by (simp add: linkFunc_def Let_def)
  have dm: "m = d_marker d" by (simp add: d)
  show thesis
  proof (rule that [of options' lbl])
    show "getMarker e markerOptions markerEvents = Inr (options', d_marker d)"
      using g unfolding dm .
    show "(if \<not> is_undefined (get options' ''customlabel'')
      then (case new_MarkerLabel (get options' ''customlabel'') (d_marker d) of
              Inl err \<Rightarrow> Inl err | Inr l \<Rightarrow> Inr (Some l))
      else Inr None) = Inr lbl"
      using l unfolding dm .
  qed (simp_all add: d)
qed

lemma linkFunc_label:
  assumes "linkFunc e markerOptions markerEvents = Inr d"
    and "get markerOptions ''customlabel'' = JObj cl"
  shows "\<exists>iconFillColor.
     read_prop (get (m_props (d_marker d)) ''icon'') ''fillColor'' = Inr iconFillColor \<and>
     d_label d = Some
       \<lparr>l_text = get cl ''text'',
        l_color = or_else (get cl ''color'') (JStr ''#000000''),
        l_fillColor = or_else (get cl ''fillColor'') (JStr ''#ffffff''),
        l_fillOpacity = or_else (get cl ''fillOpacity'') (JNum (Finite 1)),
        l_strokeColor = or_else (get cl ''strokeColor'') (JStr ''#ffffff''),
        l_strokeWeight = or_else (get cl ''strokeWeight'') (JNum (Finite 1)),
        l_zIndex = or_else (get (m_props (d_marker d)) ''zIndex'') (JStr ''auto''),
        l_backgroundColor = or_else iconFillColor (JStr ''transparent'')\<rparr>"
proof -
  from assms(1) obtain options' lbl where
    g: "getMarker e markerOptions markerEvents = Inr (options', d_marker d)" and
    dl: "d_label d = lbl" and
    l: "(if \<not> is_undefined (get options' ''customlabel'')
      then (case new_MarkerLabel (get options' ''customlabel'') (d_marker d) of
              Inl err \<Rightarrow> Inl err | Inr l \<Rightarrow> Inr (Some l))
      else Inr None) = Inr lbl"
    by (rule linkFunc_Inr)
  from getMarker_customlabel [OF g] assms(2)
  have c: "get options' ''customlabel'' = JObj cl" by simp
  from l obtain lab where n: "new_MarkerLabel (JObj cl) (d_marker d) = Inr lab"
    and s: "lbl = Some lab"
    by (auto simp: c is_undefined_def split: sum.splits)
  from n obtain fc where
    f: "read_prop (get (m_props (d_marker d)) ''icon'') ''fillColor'' = Inr fc"
    by (cases "read_prop (get (m_props (d_marker d)) ''icon'') ''fillColor''")
       (simp_all add: new_MarkerLabel_def)
  with n dl s show ?thesis by (simp add: new_MarkerLabel_def)
qed


lemma linkFunc_position:
  assumes "linkFunc e markerOptions markerEvents = Inr d"
  shows "get (m_props (d_marker d)) ''position'' =
     (if instanceof_LatLng (get markerOptions ''position'')
      then get markerOptions ''position'' else JLatLng 0 0)"
proof -
  from assms obtain options' where
    "getMarker e markerOptions markerEvents = Inr (options', d_marker d)"
    by (rule linkFunc_Inr)
  then show ?thesis by (simp add: getMarker_get set_zIndex_get set_position_get)
qed

lemma linkFunc_calls:
  assumes "linkFunc e markerOptions markerEvents = Inr d"
  shows "d_calls d = [AddObject ''markers'' (d_marker d)]
       @ (if truthy (address_of markerOptions)
          then [GetGeoLocation (address_of markerOptions)] else [])
       @ [ObserveAttrSetObj (d_marker d)]"
    and "d_pending d = truthy (address_of markerOptions)"
  using assms by (rule linkFunc_Inr; simp)+

text \<open>
  The handler of a linked directive makes the one call of \<open>deleteObject\<close>, whether a
  lookup is waiting, has resolved before the destruction, or resolves after it.
\<close>

lemma linked_destroy_deletes_once:
  assumes "linkFunc e markerOptions markerEvents = Inr d"
  shows "filter is_DeleteObject (d_calls (destroy_handler d))
           = [DeleteObject ''markers'' (d_marker d)]
       \<and> filter is_DeleteObject (d_calls (destroy_handler (geo_resolved lat lng geoCallback d)))
           = [DeleteObject ''markers'' (d_marker (geo_resolved lat lng geoCallback d))]
       \<and> filter is_DeleteObject (d_calls (geo_resolved lat lng geoCallback (destroy_handler d)))
           = [DeleteObject ''markers'' (d_marker d)]"
  by (simp add: destroy_handler_def geo_resolved_def then_callback_def
        linkFunc_calls(1) [OF assms])

subsection \<open>Running the functions on the examples\<close>

lemmas run_simps = getMarker_def set_icon_def set_icon_path_def set_position_def set_zIndex_def
  new_Marker_def addListener_def own_keys_def has_own_def get_def is_undefined_def
  icon_key_step_def hasOwnProperty_call_def match_symbol_name_def symbol_char_def
  example_env_def Let_def

lemmas link_simps = linkFunc_def address_of_def new_MarkerLabel_def or_else_def
  geo_resolved_def then_callback_def destroy_handler_def setPosition_def

section \<open>The properties of the specification\<close>

subsection \<open>The marker factory\<close>

text \<open>
  C5. When the \<open>position\<close> option is absent (it then reads as \<open>undefined\<close>) or is not
  an instance of \<open>google.maps.LatLng\<close>, the marker that \<open>getMarker\<close> constructs has
  the position \<open>LatLng(0, 0)\<close>.
\<close>

theorem position_default:
  assumes "getMarker e options events = Inr (options', m)"
    and "\<not> instanceof_LatLng (get options ''position'')"
  shows "get (m_props m) ''position'' = JLatLng 0 0"
  using assms by (simp add: getMarker_get set_zIndex_get set_position_get)

theorem position_default_witness:
  "getMarker example_env cn_tower [] = Inr (at_origin, marker_of at_origin)
   \<and> \<not> instanceof_LatLng (get cn_tower ''position'')
   \<and> get (m_props (marker_of at_origin)) ''position'' = JLatLng 0 0"
proof -
  have h1: "getMarker example_env cn_tower [] = Inr (at_origin, marker_of at_origin)"
    by (simp add: run_simps)
  have h2: "\<not> instanceof_LatLng (get cn_tower ''position'')"
    by (simp add: get_def)
  from position_default [OF h1 h2] h1 h2
  show ?thesis by simp
qed

text \<open>
  C8. When the option \<open>zIndex\<close> is unset and the lower-case option \<open>zindex\<close> is set
  to a value \<open>v\<close>, the marker that \<open>getMarker\<close> constructs has the z-index \<open>v\<close>.
\<close>

theorem legacy_zindex:
  assumes "getMarker e options events = Inr (options', m)"
    and "get options ''zIndex'' = JUndefined" and "get options ''zindex'' = v"
    and "v \<noteq> JUndefined"
  shows "get (m_props m) ''zIndex'' = v"
  using assms by (simp add: getMarker_get set_zIndex_get set_position_get)

theorem legacy_zindex_witness:
  "getMarker example_env legacy_z [] = Inr (legacy_z_done, marker_of legacy_z_done)
   \<and> get legacy_z ''zIndex'' = JUndefined
   \<and> get legacy_z ''zindex'' = JNum (Finite 7)
   \<and> JNum (Finite 7) \<noteq> JUndefined
   \<and> get (m_props (marker_of legacy_z_done)) ''zIndex'' = JNum (Finite 7)"
proof -
  have h1: "getMarker example_env legacy_z [] = Inr (legacy_z_done, marker_of legacy_z_done)"
    by (simp add: run_simps)
  have h2: "get legacy_z ''zIndex'' = JUndefined"
    by (simp add: get_def)
  have h3: "get legacy_z ''zindex'' = JNum (Finite 7)"
    by (simp add: get_def)
  have h4: "JNum (Finite 7) \<noteq> JUndefined"
    by simp
  from legacy_zindex [OF h1 h2 h3 h4] h1 h2 h3 h4
  show ?thesis by simp
qed

text \<open>
  C6. When the icon is an object whose \<open>path\<close> is a string, the icon of the constructed
  marker has, under \<open>path\<close>, the entry of \<open>google.maps.SymbolPath\<close> of that name if
  the string matches \<open>/^[A-Z_]+$/\<close>, and the string itself otherwise.
\<close>

theorem symbol_path:
  assumes "getMarker e options events = Inr (options', m)"
    and "get options ''icon'' = JObj icon" and "get icon ''path'' = JStr s"
  shows "read_prop (get (m_props m) ''icon'') ''path'' =
           Inr (if match_symbol_name s then symbolPath e s else JStr s)"
proof -
  from getMarker_icon [OF assms(1,2)] obtain icon1 icon2 where
    p: "set_icon_path e icon = Inr icon1" and
    l: "icon_keys_loop e (own_keys icon1) icon1 = Inr icon2" and
    g: "get (m_props m) ''icon'' = JObj icon2"
    by blast
  from p assms(3)
  have i: "icon1 = (if match_symbol_name s then put icon ''path'' (symbolPath e s) else icon)"
    by (simp add: set_icon_path_string)
  from l have "get icon2 ''path'' = get icon1 ''path''"
    by (rule icon_keys_loop_plain) simp_all
  also have "\<dots> = (if match_symbol_name s then symbolPath e s else JStr s)"
    using assms(3) by (simp add: i get_put)
  finally show ?thesis using g by simp
qed

theorem symbol_path_witness:
  "getMarker example_env circle [] = Inr (circle_done, marker_of circle_done)
   \<and> get circle ''icon'' = JObj [(''path'', JStr ''CIRCLE'')]
   \<and> get [(''path'', JStr ''CIRCLE'')] ''path'' = JStr ''CIRCLE''
   \<and> match_symbol_name ''CIRCLE''
   \<and> read_prop (get (m_props (marker_of circle_done)) ''icon'') ''path''
       = Inr (symbolPath example_env ''CIRCLE'')
   \<and> symbolPath example_env ''CIRCLE'' = JNum (Finite 0)"
proof -
  have h1: "getMarker example_env circle [] = Inr (circle_done, marker_of circle_done)"
    by (simp add: run_simps)
  have h2: "get circle ''icon'' = JObj [(''path'', JStr ''CIRCLE'')]"
    by (simp add: get_def)
  have h3: "get [(''path'', JStr ''CIRCLE'')] ''path'' = JStr ''CIRCLE''"
    by (simp add: get_def)
  have h4: "match_symbol_name ''CIRCLE''"
    by (simp add: match_symbol_name_def symbol_char_def)
  from symbol_path [OF h1 h2 h3] h1 h2 h3 h4
  show ?thesis by (simp add: example_env_def get_def)
qed

text \<open>
  C7. When the icon is an object and its \<open>anchor\<close> or \<open>origin\<close> is a two-element
  array \<open>[x, y]\<close>, the icon of the constructed marker has under that name the point
  with the fields \<open>x\<close> and \<open>y\<close>; when its \<open>size\<close> or \<open>scaledSize\<close> is \<open>[w, h]\<close>,
  it has the dimension of width \<open>w\<close> and height \<open>h\<close>. The elements may be any
  values, numbers among them. The icon is one that leaves \<open>hasOwnProperty\<close> to the
  inherited method, as an object of data does: line 52 asks the icon itself, and
  an icon with a property of that name decides by it what is converted.
\<close>

theorem pair_to_point_and_size:
  assumes "getMarker e options events = Inr (options', m)"
    and "get options ''icon'' = JObj icon" and "get icon k = JArr [x, y]"
    and "\<not> has_own icon ''hasOwnProperty''"
  shows "((k = ''anchor'' \<or> k = ''origin'') \<longrightarrow>
            read_prop (get (m_props m) ''icon'') k = Inr (JPoint x y))
       \<and> ((k = ''size'' \<or> k = ''scaledSize'') \<longrightarrow>
            read_prop (get (m_props m) ''icon'') k = Inr (JSize x y))"
proof -
  from assms(3) have "has_own icon k" by (intro get_has_own) simp
  from getMarker_icon_key [OF assms(1,2) this assms(4)] assms(3) show ?thesis by auto
qed

theorem pair_to_point_and_size_witness:
  "getMarker example_env [(''icon'', JObj pairs_icon)] []
     = Inr (pairs_done, marker_of pairs_done)
   \<and> get [(''icon'', JObj pairs_icon)] ''icon'' = JObj pairs_icon
   \<and> get pairs_icon ''anchor'' = JArr [JNum (Finite 1), JNum (Finite 2)]
   \<and> get pairs_icon ''scaledSize'' = JArr [JNum (Finite 3), JNum (Finite 4)]
   \<and> \<not> has_own pairs_icon ''hasOwnProperty''
   \<and> read_prop (get (m_props (marker_of pairs_done)) ''icon'') ''anchor''
       = Inr (JPoint (JNum (Finite 1)) (JNum (Finite 2)))
   \<and> read_prop (get (m_props (marker_of pairs_done)) ''icon'') ''scaledSize''
       = Inr (JSize (JNum (Finite 3)) (JNum (Finite 4)))"
proof -
  have h1: "getMarker example_env [(''icon'', JObj pairs_icon)] []
     = Inr (pairs_done, marker_of pairs_done)"
    by (simp add: run_simps)
  have h2: "get [(''icon'', JObj pairs_icon)] ''icon'' = JObj pairs_icon"
    by (simp add: get_def)
  have h3: "get pairs_icon ''anchor'' = JArr [JNum (Finite 1), JNum (Finite 2)]"
    by (simp add: get_def)
  have h4: "get pairs_icon ''scaledSize'' = JArr [JNum (Finite 3), JNum (Finite 4)]"
    by (simp add: get_def)
  have h5: "\<not> has_own pairs_icon ''hasOwnProperty''"
    by (simp add: has_own_def)
  from pair_to_point_and_size [OF h1 h2 h3 h5] pair_to_point_and_size [OF h1 h2 h4 h5]
    h1 h2 h3 h4 h5
  show ?thesis by simp
qed

text \<open>
  C2, as the claim states it, fails: an \<open>anchor\<close> that is the number \<open>5\<close>, which is
  no pair, does not stay as it is but becomes the point of \<open>undefined\<close> and
  \<open>undefined\<close>.
\<close>

theorem malformed_anchor_is_replaced:
  "getMarker example_env [(''icon'', JObj [(''anchor'', JNum (Finite 5))])] []
     = Inr ([(''icon'', JObj [(''anchor'', JPoint JUndefined JUndefined)]),
             (''position'', JLatLng 0 0)],
            \<lparr>m_props = [(''icon'', JObj [(''anchor'', JPoint JUndefined JUndefined)]),
                        (''position'', JLatLng 0 0)],
             m_listeners = []\<rparr>)
   \<and> JPoint JUndefined JUndefined \<noteq> JNum (Finite 5)"
  by (simp add: run_simps)

text \<open>
  C2, amended. The loop tests the name of a sub-field and never its shape. On
  every icon object that leaves \<open>hasOwnProperty\<close> to the inherited method and from
  which \<open>getMarker\<close> returns a marker, every own sub-field named \<open>anchor\<close> or
  \<open>origin\<close> has been replaced by the point of its elements \<open>0\<close> and \<open>1\<close>, and
  every one named \<open>size\<close> or \<open>scaledSize\<close> by the dimension of its elements \<open>0\<close>
  and \<open>1\<close>, whatever shape the value has, an element that it lacks being
  \<open>undefined\<close>; the sub-fields of every other name, \<open>path\<close> apart, are the ones
  that stay unchanged. (Where \<open>getMarker\<close> throws, which it does when such a
  sub-field is \<open>null\<close> or \<open>undefined\<close>, there is no marker and nothing is said.)
\<close>

theorem icon_fields_by_name:
  assumes "getMarker e options events = Inr (options', m)"
    and "get options ''icon'' = JObj icon" and "has_own icon k"
    and "\<not> has_own icon ''hasOwnProperty''"
  shows "((k = ''anchor'' \<or> k = ''origin'') \<longrightarrow>
            (\<exists>a b. index (get icon k) 0 = Inr a \<and> index (get icon k) 1 = Inr b
               \<and> read_prop (get (m_props m) ''icon'') k = Inr (JPoint a b)))
       \<and> ((k = ''size'' \<or> k = ''scaledSize'') \<longrightarrow>
            (\<exists>a b. index (get icon k) 0 = Inr a \<and> index (get icon k) 1 = Inr b
               \<and> read_prop (get (m_props m) ''icon'') k = Inr (JSize a b)))
       \<and> (k \<noteq> ''anchor'' \<and> k \<noteq> ''origin'' \<and> k \<noteq> ''size'' \<and> k \<noteq> ''scaledSize''
            \<and> k \<noteq> ''path'' \<longrightarrow>
            read_prop (get (m_props m) ''icon'') k = Inr (get icon k))"
proof -
  from getMarker_icon [OF assms(1,2)] obtain icon1 icon2 where
    p: "set_icon_path e icon = Inr icon1" and
    l: "icon_keys_loop e (own_keys icon1) icon1 = Inr icon2" and
    g: "get (m_props m) ''icon'' = JObj icon2"
    by blast
  have "read_prop (get (m_props m) ''icon'') k = Inr (get icon k)"
    if "k \<noteq> ''anchor''" "k \<noteq> ''origin''" "k \<noteq> ''size''" "k \<noteq> ''scaledSize''" "k \<noteq> ''path''"
  proof -
    from l that(1-4) have "get icon2 k = get icon1 k" by (rule icon_keys_loop_plain)
    with that(5) g p show ?thesis by (simp add: set_icon_path_get)
  qed
  with getMarker_icon_key [OF assms] show ?thesis by blast
qed

theorem icon_fields_by_name_witness:
  "getMarker example_env [(''icon'', JObj five_icon)] []
     = Inr (five_done, marker_of five_done)
   \<and> get [(''icon'', JObj five_icon)] ''icon'' = JObj five_icon
   \<and> has_own five_icon ''anchor''
   \<and> has_own five_icon ''fillColor''
   \<and> \<not> has_own five_icon ''hasOwnProperty''
   \<and> index (get five_icon ''anchor'') 0 = Inr JUndefined
   \<and> index (get five_icon ''anchor'') 1 = Inr JUndefined
   \<and> read_prop (get (m_props (marker_of five_done)) ''icon'') ''anchor''
       = Inr (JPoint JUndefined JUndefined)
   \<and> read_prop (get (m_props (marker_of five_done)) ''icon'') ''fillColor'' = Inr (JStr ''red'')"
proof -
  have h1: "getMarker example_env [(''icon'', JObj five_icon)] []
     = Inr (five_done, marker_of five_done)"
    by (simp add: run_simps)
  have h2: "get [(''icon'', JObj five_icon)] ''icon'' = JObj five_icon"
    by (simp add: get_def)
  have h3: "has_own five_icon ''anchor''"
    by (simp add: has_own_def)
  have h4: "has_own five_icon ''fillColor''"
    by (simp add: has_own_def)
  have h5: "\<not> has_own five_icon ''hasOwnProperty''"
    by (simp add: has_own_def)
  from icon_fields_by_name [OF h1 h2 h3 h5] icon_fields_by_name [OF h1 h2 h4 h5]
    h1 h2 h3 h4 h5
  show ?thesis by (simp add: get_def)
qed

subsection \<open>The link function\<close>

text \<open>
  C1 says that linking never throws when \<open>customlabel\<close> is present, whatever the icon
  is. Line 113 reads \<open>marker.icon.fillColor\<close> with no test of \<open>marker.icon\<close>: for a
  marker with a position and a custom label and no \<open>icon\<close> option, \<open>linkFunc\<close> throws
  a \<open>TypeError\<close>, after the marker has been added to the \<open>markers\<close> of the map
  controller.
\<close>

theorem link_throws_without_icon:
  "linkFunc example_env
     [(''position'', JLatLng (4074 / 100) (- (7418 / 100))),
      (''customlabel'', JObj [(''text'', JStr ''A'')])] []
   = Inl (TypeError,
          [AddObject ''markers''
             \<lparr>m_props = [(''position'', JLatLng (4074 / 100) (- (7418 / 100))),
                         (''customlabel'', JObj [(''text'', JStr ''A'')])],
              m_listeners = []\<rparr>])"
  by (simp add: run_simps link_simps)

text \<open>
  C4. When \<open>customlabel\<close> is an object in which \<open>color\<close>, \<open>fillColor\<close>,
  \<open>fillOpacity\<close>, \<open>strokeColor\<close> and \<open>strokeWeight\<close> are unset, the label that a
  completed link constructs has the text of the object, the colour \<open>#000000\<close>, the fill
  colour \<open>#ffffff\<close>, the fill opacity \<open>1\<close>, the stroke colour \<open>#ffffff\<close> and the
  stroke weight \<open>1\<close>; its z-index is \<open>auto\<close> when the marker has none, and its
  background colour is the \<open>fillColor\<close> of the marker's icon if that is truthy and
  \<open>transparent\<close> otherwise.
\<close>

theorem label_defaults:
  assumes "linkFunc e markerOptions markerEvents = Inr d"
    and "get markerOptions ''customlabel'' = JObj cl"
    and "get cl ''color'' = JUndefined" and "get cl ''fillColor'' = JUndefined"
    and "get cl ''fillOpacity'' = JUndefined" and "get cl ''strokeColor'' = JUndefined"
    and "get cl ''strokeWeight'' = JUndefined"
  shows "\<exists>l. d_label d = Some l
      \<and> l_text l = get cl ''text''
      \<and> l_color l = JStr ''#000000''
      \<and> l_fillColor l = JStr ''#ffffff''
      \<and> l_fillOpacity l = JNum (Finite 1)
      \<and> l_strokeColor l = JStr ''#ffffff''
      \<and> l_strokeWeight l = JNum (Finite 1)
      \<and> (get (m_props (d_marker d)) ''zIndex'' = JUndefined \<longrightarrow> l_zIndex l = JStr ''auto'')
      \<and> (truthy (get (m_props (d_marker d)) ''zIndex'')
           \<longrightarrow> l_zIndex l = get (m_props (d_marker d)) ''zIndex'')
      \<and> (\<exists>fc. read_prop (get (m_props (d_marker d)) ''icon'') ''fillColor'' = Inr fc
             \<and> l_backgroundColor l = (if truthy fc then fc else JStr ''transparent''))"
  using linkFunc_label [OF assms(1,2)] assms(3-7)
  by (auto simp: or_else_def)

theorem label_defaults_witness:
  "linkFunc example_env red_labelled [] = Inr red_labelled_linked
   \<and> get red_labelled ''customlabel'' = JObj label_A
   \<and> get label_A ''color'' = JUndefined
   \<and> get label_A ''fillColor'' = JUndefined
   \<and> get label_A ''fillOpacity'' = JUndefined
   \<and> get label_A ''strokeColor'' = JUndefined
   \<and> get label_A ''strokeWeight'' = JUndefined
   \<and> get (m_props (d_marker red_labelled_linked)) ''zIndex'' = JUndefined
   \<and> read_prop (get (m_props (d_marker red_labelled_linked)) ''icon'') ''fillColor''
       = Inr (JStr ''red'')"
proof -
  have h1: "linkFunc example_env red_labelled [] = Inr red_labelled_linked"
    by (simp add: run_simps link_simps)
  have h2: "get red_labelled ''customlabel'' = JObj label_A"
    by (simp add: get_def)
  have h3: "get label_A ''color'' = JUndefined"
    by (simp add: get_def)
  have h4: "get label_A ''fillColor'' = JUndefined"
    by (simp add: get_def)
  have h5: "get label_A ''fillOpacity'' = JUndefined"
    by (simp add: get_def)
  have h6: "get label_A ''strokeColor'' = JUndefined"
    by (simp add: get_def)
  have h7: "get label_A ''strokeWeight'' = JUndefined"
    by (simp add: get_def)
  from label_defaults [OF h1 h2 h3 h4 h5 h6 h7] h1 h2 h3 h4 h5 h6 h7
  show ?thesis by (simp add: get_def)
qed

text \<open>
  C10. The defaults of the label replace every falsy value of the custom label, not
  only an absent one: a \<open>fillOpacity\<close> of \<open>0\<close> and a \<open>strokeWeight\<close> of \<open>0\<close> give
  a label with the fill opacity \<open>1\<close> and the stroke weight \<open>1\<close>.
\<close>

theorem falsy_label_fields:
  assumes "linkFunc e markerOptions markerEvents = Inr d"
    and "get markerOptions ''customlabel'' = JObj cl"
  shows "\<exists>l. d_label d = Some l
      \<and> (\<not> truthy (get cl ''color'') \<longrightarrow> l_color l = JStr ''#000000'')
      \<and> (\<not> truthy (get cl ''fillColor'') \<longrightarrow> l_fillColor l = JStr ''#ffffff'')
      \<and> (\<not> truthy (get cl ''fillOpacity'') \<longrightarrow> l_fillOpacity l = JNum (Finite 1))
      \<and> (\<not> truthy (get cl ''strokeColor'') \<longrightarrow> l_strokeColor l = JStr ''#ffffff'')
      \<and> (\<not> truthy (get cl ''strokeWeight'') \<longrightarrow> l_strokeWeight l = JNum (Finite 1))
      \<and> (get cl ''fillOpacity'' = JNum (Finite 0) \<longrightarrow> l_fillOpacity l = JNum (Finite 1))
      \<and> (get cl ''strokeWeight'' = JNum (Finite 0) \<longrightarrow> l_strokeWeight l = JNum (Finite 1))"
  using linkFunc_label [OF assms(1,2)]
  by (auto simp: or_else_def)

theorem falsy_label_fields_witness:
  "linkFunc example_env zeros_labelled [] = Inr zeros_labelled_linked
   \<and> get zeros_labelled ''customlabel'' = JObj label_zeros
   \<and> get label_zeros ''fillOpacity'' = JNum (Finite 0)
   \<and> get label_zeros ''strokeWeight'' = JNum (Finite 0)"
proof -
  have h1: "linkFunc example_env zeros_labelled [] = Inr zeros_labelled_linked"
    by (simp add: run_simps link_simps)
  have h2: "get zeros_labelled ''customlabel'' = JObj label_zeros"
    by (simp add: get_def)
  have h3: "get label_zeros ''fillOpacity'' = JNum (Finite 0)"
    by (simp add: get_def)
  have h4: "get label_zeros ''strokeWeight'' = JNum (Finite 0)"
    by (simp add: get_def)
  from falsy_label_fields [OF h1 h2] h1 h2 h3 h4
  show ?thesis by simp
qed

text \<open>
  C3, as the claim states it, fails: the empty string is a position that is a string
  and no coordinate, and line 118 tests \<open>address\<close> for truth, so the marker is put at
  \<open>LatLng(0, 0)\<close> and no geocode lookup is asked for.
\<close>

theorem empty_address_is_not_geocoded:
  "linkFunc example_env [(''position'', JStr [])] []
   = Inr \<lparr>d_marker = \<lparr>m_props = [(''position'', JLatLng 0 0)], m_listeners = []\<rparr>,
          d_label = None,
          d_pending = False,
          d_calls =
            [AddObject ''markers''
               \<lparr>m_props = [(''position'', JLatLng 0 0)], m_listeners = []\<rparr>,
             ObserveAttrSetObj
               \<lparr>m_props = [(''position'', JLatLng 0 0)], m_listeners = []\<rparr>]\<rparr>"
  by (simp add: run_simps link_simps)

text \<open>
  C3, amended. For every link that completes: if the parsed position is a coordinate,
  the marker is constructed at it, \<open>getGeoLocation\<close> is not called and nothing is
  waiting for a lookup; if the parsed position is a string that is not empty, the
  marker is constructed at \<open>LatLng(0, 0)\<close>, \<open>getGeoLocation\<close> is called once, with
  that string, and when the lookup resolves the marker's position becomes the resolved
  coordinate, \<open>zoomToIncludeMarkers\<close> is called, and a \<open>geo-callback\<close> attribute that
  is not empty is evaluated once; a second resolution changes nothing.
\<close>

theorem geocode_for_addresses:
  assumes "linkFunc e markerOptions markerEvents = Inr d"
  shows "(get markerOptions ''position'' = JLatLng a b \<longrightarrow>
            get (m_props (d_marker d)) ''position'' = JLatLng a b
          \<and> filter is_GetGeoLocation (d_calls d) = []
          \<and> geo_resolved lat lng geoCallback d = d)
       \<and> (get markerOptions ''position'' = JStr s \<and> s \<noteq> [] \<longrightarrow>
            get (m_props (d_marker d)) ''position'' = JLatLng 0 0
          \<and> filter is_GetGeoLocation (d_calls d) = [GetGeoLocation (JStr s)]
          \<and> get (m_props (d_marker (geo_resolved lat lng geoCallback d))) ''position''
              = JLatLng lat lng
          \<and> d_calls (geo_resolved lat lng geoCallback d) = d_calls d @ [ZoomToIncludeMarkers]
               @ (if truthy geoCallback then [ParseEval geoCallback] else [])
          \<and> (truthy geoCallback \<longrightarrow>
               filter is_ParseEval (d_calls (geo_resolved lat lng geoCallback d))
                 = [ParseEval geoCallback])
          \<and> geo_resolved lat' lng' geoCallback' (geo_resolved lat lng geoCallback d)
              = geo_resolved lat lng geoCallback d)"
proof (intro conjI impI)
  assume p: "get markerOptions ''position'' = JLatLng a b"
  then have ad: "address_of markerOptions = JUndefined" by (simp add: address_of_def)
  from p show "get (m_props (d_marker d)) ''position'' = JLatLng a b"
    by (simp add: linkFunc_position [OF assms])
  from ad show "filter is_GetGeoLocation (d_calls d) = []"
    by (simp add: linkFunc_calls(1) [OF assms])
  from ad show "geo_resolved lat lng geoCallback d = d"
    by (simp add: geo_resolved_def linkFunc_calls(2) [OF assms])
next
  assume "get markerOptions ''position'' = JStr s \<and> s \<noteq> []"
  then have p: "get markerOptions ''position'' = JStr s" and ne: "s \<noteq> []" by simp_all
  then have ad: "address_of markerOptions = JStr s" by (simp add: address_of_def)
  from ne ad have pend: "d_pending d" by (simp add: linkFunc_calls(2) [OF assms])
  from p show "get (m_props (d_marker d)) ''position'' = JLatLng 0 0"
    by (simp add: linkFunc_position [OF assms])
  from ad ne show "filter is_GetGeoLocation (d_calls d) = [GetGeoLocation (JStr s)]"
    by (simp add: linkFunc_calls(1) [OF assms])
  from pend show "get (m_props (d_marker (geo_resolved lat lng geoCallback d))) ''position''
      = JLatLng lat lng"
    by (simp add: geo_resolved_def then_callback_def setPosition_def get_put)
  from pend show "d_calls (geo_resolved lat lng geoCallback d) = d_calls d
      @ [ZoomToIncludeMarkers] @ (if truthy geoCallback then [ParseEval geoCallback] else [])"
    by (simp add: geo_resolved_def then_callback_def)
  from pend ad ne
  show "filter is_ParseEval (d_calls (geo_resolved lat lng geoCallback d))
      = [ParseEval geoCallback]"
    if "truthy geoCallback"
    using that by (simp add: geo_resolved_def then_callback_def linkFunc_calls(1) [OF assms])
  show "geo_resolved lat' lng' geoCallback' (geo_resolved lat lng geoCallback d)
      = geo_resolved lat lng geoCallback d"
    by (simp add: geo_resolved_def then_callback_def)
qed

theorem geocode_for_addresses_witness:
  "linkFunc example_env cn_tower [] = Inr cn_tower_linked
   \<and> get cn_tower ''position'' = JStr ''the cn tower''
   \<and> ''the cn tower'' \<noteq> []
   \<and> truthy (JStr ''showStoreInfo()'')
   \<and> filter is_GetGeoLocation (d_calls cn_tower_linked)
       = [GetGeoLocation (JStr ''the cn tower'')]
   \<and> geo_resolved (436426 / 10000) (- (793871 / 10000)) (JStr ''showStoreInfo()'')
       cn_tower_linked = cn_tower_resolved
   \<and> filter is_ParseEval (d_calls cn_tower_resolved) = [ParseEval (JStr ''showStoreInfo()'')]"
proof -
  have h1: "linkFunc example_env cn_tower [] = Inr cn_tower_linked"
    by (simp add: run_simps link_simps)
  have h2: "get cn_tower ''position'' = JStr ''the cn tower''"
    by (simp add: get_def)
  have h3: "''the cn tower'' \<noteq> []" by simp
  have h4: "truthy (JStr ''showStoreInfo()'')" by simp
  from geocode_for_addresses [OF h1, of 0 0 "436426 / 10000" "- (793871 / 10000)"
      "JStr ''showStoreInfo()''" "''the cn tower''" 0 0 JUndefined] h1 h2 h3 h4
  show ?thesis by (simp add: link_simps)
qed

text \<open>
  C9 says that the destruction of the element deletes the marker from \<open>markers\<close>
  once. The handler that does so is bound by the last statement of \<open>linkFunc\<close>. For
  the marker of C1, with a position and a custom label and no \<open>icon\<close> option, the
  marker is constructed and added to \<open>markers\<close>, line 113 throws before the handler
  is bound, and the destruction of the element deletes nothing: the one call made is
  the one that added the marker. (For a link that completes, the lemma
  \<open>linked_destroy_deletes_once\<close> shows the single deletion.)
\<close>

theorem failed_link_never_deletes:
  "element_destroyed
     (linkFunc example_env
        [(''position'', JLatLng (4074 / 100) (- (7418 / 100))),
         (''customlabel'', JObj [(''text'', JStr ''A'')])] [])
   = [AddObject ''markers''
        \<lparr>m_props = [(''position'', JLatLng (4074 / 100) (- (7418 / 100))),
                    (''customlabel'', JObj [(''text'', JStr ''A'')])],
         m_listeners = []\<rparr>]
   \<and> filter is_DeleteObject
        (element_destroyed
           (linkFunc example_env
              [(''position'', JLatLng (4074 / 100) (- (7418 / 100))),
               (''customlabel'', JObj [(''text'', JStr ''A'')])] [])) = []"
  by (simp add: run_simps link_simps)


end
